theory Spec2Isabelle
  imports Main "HOL-Library.AList"
begin

section \<open>Python values\<close>

text \<open>
  A Python \<^verbatim>\<open>str\<close> is a sequence of Unicode code points, so it is modelled as a list
  of naturals. \<open>ustr\<close> writes an ASCII literal of the source as such a list.
\<close>

type_synonym pystr = "nat list"

definition ustr :: "string \<Rightarrow> pystr" where
  "ustr s = map of_char s"

text \<open>
  The code points for which \<^verbatim>\<open>str.isspace\<close> holds; \<^verbatim>\<open>str.strip()\<close> without an
  argument removes exactly these from both ends.
\<close>

definition is_space :: "nat \<Rightarrow> bool" where
  "is_space c \<longleftrightarrow>
     (9 \<le> c \<and> c \<le> 13) \<or> (28 \<le> c \<and> c \<le> 32) \<or> c = 133 \<or> c = 160 \<or> c = 5760 \<or>
     (8192 \<le> c \<and> c \<le> 8202) \<or> c = 8232 \<or> c = 8233 \<or> c = 8239 \<or> c = 8287 \<or> c = 12288"

definition strip :: "pystr \<Rightarrow> pystr" where
  "strip s = rev (dropWhile is_space (rev (dropWhile is_space s)))"

text \<open>\<^verbatim>\<open>s.startswith(p)\<close>.\<close>

fun startswith :: "pystr \<Rightarrow> pystr \<Rightarrow> bool" where
  "startswith s [] = True"
| "startswith [] (p # ps) = False"
| "startswith (c # cs) (p # ps) = (c = p \<and> startswith cs ps)"

text \<open>
  \<^verbatim>\<open>s.replace(old, new)\<close>: every non-overlapping occurrence of \<open>old\<close>, found from the
  left, is replaced by \<open>new\<close>. With an empty \<open>old\<close> Python puts \<open>new\<close> before every
  character and at the end.
\<close>

function replace_occ :: "pystr \<Rightarrow> pystr \<Rightarrow> pystr \<Rightarrow> pystr" where
  "replace_occ old new [] = []"
| "replace_occ old new (c # cs) =
     (if old \<noteq> [] \<and> startswith (c # cs) old
      then new @ replace_occ old new (drop (length old) (c # cs))
      else c # replace_occ old new cs)"
  by pat_completeness auto
termination
  by (relation "measure (\<lambda>(old, new, s). length s)") (auto simp: neq_Nil_conv)

definition replace :: "pystr \<Rightarrow> pystr \<Rightarrow> pystr \<Rightarrow> pystr" where
  "replace s old new =
     (if old = [] then new @ concat (map (\<lambda>c. c # new) s) else replace_occ old new s)"

text \<open>The values the functions of the program return, and their truth value in an \<^verbatim>\<open>if\<close>.\<close>

datatype pyval = PyNone | PyBool bool

fun truthy :: "pyval \<Rightarrow> bool" where
  "truthy PyNone = False"
| "truthy (PyBool b) = b"

text \<open>
  A \<^verbatim>\<open>dict\<close> keeps its keys in insertion order; assigning to a key that is present
  replaces the value and keeps the key's position. This is \<open>AList.update\<close> on an
  association list. A failed subscript raises \<^verbatim>\<open>KeyError\<close>.
\<close>

datatype error = KeyError | DataError | UnicodeEncodeError
  | UndefinedTable | UndefinedColumn | InvalidSchemaName | ReservedName
  | SequenceGeneratorLimitExceeded

type_synonym ('k, 'v) pydict = "('k \<times> 'v) list"

text \<open>\<^verbatim>\<open>dict(pairs)\<close>.\<close>

definition dict :: "('k \<times> 'v) list \<Rightarrow> ('k, 'v) pydict" where
  "dict pairs = foldl (\<lambda>d (k, v). AList.update k v d) [] pairs"

text \<open>\<^verbatim>\<open>{v: k for k, v in d.items()}\<close>.\<close>

definition swap_dict :: "('k, 'v) pydict \<Rightarrow> ('v, 'k) pydict" where
  "swap_dict d = foldl (\<lambda>acc (k, v). AList.update v k acc) [] d"

text \<open>\<^verbatim>\<open>d[k]\<close>.\<close>

definition getitem :: "('k, 'v) pydict \<Rightarrow> 'k \<Rightarrow> error + 'v" where
  "getitem d k = (case map_of d k of None \<Rightarrow> Inl KeyError | Some v \<Rightarrow> Inr v)"

section \<open>The process environment and the schema name\<close>

text \<open>\<^verbatim>\<open>os.environ\<close> as an association list, and \<^verbatim>\<open>os.getenv(key, default)\<close>.\<close>

type_synonym environ = "(string \<times> pystr) list"

definition getenv :: "environ \<Rightarrow> string \<Rightarrow> pystr \<Rightarrow> pystr" where
  "getenv env key dflt = (case map_of env key of None \<Rightarrow> dflt | Some v \<Rightarrow> v)"

definition get_schema_name :: "environ \<Rightarrow> pystr" where
  "get_schema_name env =
     (let pgappname = getenv env ''PGAPPNAME'' (ustr ''my_app'');
          pguser = replace (getenv env ''PGUSER'' []) (ustr ''-'') []
      in pgappname @ ustr ''_schema_'' @ pguser)"

text \<open>
  The part of the schema name that comes from the user identifier: what follows the
  application identifier and the middle part.
\<close>

definition schema_user_part :: "environ \<Rightarrow> pystr" where
  "schema_user_part env =
     drop (length (getenv env ''PGAPPNAME'' (ustr ''my_app'') @ ustr ''_schema_''))
       (get_schema_name env)"

text \<open>
  Following the specification's word "alphanumeric": the letters and digits of ASCII.
  (The character used against it below, \<^verbatim>\<open>@\<close>, is no letter or digit of Unicode
  either.)
\<close>

definition alphanumeric :: "nat \<Rightarrow> bool" where
  "alphanumeric c \<longleftrightarrow> (48 \<le> c \<and> c \<le> 57) \<or> (65 \<le> c \<and> c \<le> 90) \<or> (97 \<le> c \<and> c \<le> 122)"

section \<open>What the driver sends\<close>

text \<open>
  \<^verbatim>\<open>cur.execute(query, params)\<close> first turns the composed query into bytes, which
  encodes the schema identifier, and then dumps the parameters in order; only then does
  the statement reach the store. The connection's encoding is taken to be UTF-8.
  Encoding a \<^verbatim>\<open>str\<close> fails on a lone surrogate (a value of \<^verbatim>\<open>os.environ\<close> can hold
  one); a list with an element above 0x10FFFF is no \<^verbatim>\<open>str\<close> and counts as not
  encodable. Dumping a \<^verbatim>\<open>str\<close> parameter refuses a NUL character before it encodes.
  An \<^verbatim>\<open>int\<close> parameter of any size is dumped.
\<close>

definition utf8_encodable :: "pystr \<Rightarrow> bool" where
  "utf8_encodable s = list_all (\<lambda>c. c < 55296 \<or> (57343 < c \<and> c \<le> 1114111)) s"

definition dump_str :: "pystr \<Rightarrow> error option" where
  "dump_str s =
     (if 0 \<in> set s then Some DataError
      else if \<not> utf8_encodable s then Some UnicodeEncodeError
      else None)"

fun dump_params :: "pystr list \<Rightarrow> error option" where
  "dump_params [] = None"
| "dump_params (p # ps) = (case dump_str p of Some e \<Rightarrow> Some e | None \<Rightarrow> dump_params ps)"

text \<open>
  The exception that \<^verbatim>\<open>cur.execute\<close> raises before the statement reaches the store,
  for a statement on the namespace \<open>ns\<close> with the \<^verbatim>\<open>str\<close> parameters \<open>params\<close>.
\<close>

definition client_error :: "pystr \<Rightarrow> pystr list \<Rightarrow> error option" where
  "client_error ns params =
     (if utf8_encodable ns then dump_params params else Some UnicodeEncodeError)"

section \<open>The relational store\<close>

text \<open>
  The store holds namespaces by name. A namespace of this program holds at most the two
  tables that \<open>init_database\<close> creates, with the columns of its two
  \<^verbatim>\<open>CREATE TABLE\<close> statements. A table is its rows in the order the store returns them
  (a new row goes to the end) and the next value of the sequence behind its
  \<^verbatim>\<open>SERIAL\<close> column; the sequence of a \<^verbatim>\<open>SERIAL\<close> column ends at 2147483647.
  Connections, credentials and permissions are outside the model.
\<close>

record node_row =
  nid :: int
  nname :: pystr

record edge_row =
  eid :: int
  start_node :: int
  end_node :: int
  ename :: pystr

record 'r table =
  rows :: "'r list"
  serial :: int

record schema =
  nodes_table :: "node_row table option"
  edges_table :: "edge_row table option"

type_synonym database = "(pystr \<times> schema) list"

text \<open>SQL values, the columns of the two tables by name, and \<^verbatim>\<open>WHERE\<close> conditions.\<close>

datatype val = IntV int | TextV pystr

definition node_column :: "string \<Rightarrow> (node_row \<Rightarrow> val) option" where
  "node_column c =
     (if c = ''id'' then Some (\<lambda>r. IntV (nid r))
      else if c = ''name'' then Some (\<lambda>r. TextV (nname r))
      else None)"

definition edge_column :: "string \<Rightarrow> (edge_row \<Rightarrow> val) option" where
  "edge_column c =
     (if c = ''id'' then Some (\<lambda>r. IntV (eid r))
      else if c = ''start_node'' then Some (\<lambda>r. IntV (start_node r))
      else if c = ''end_node'' then Some (\<lambda>r. IntV (end_node r))
      else if c = ''name'' then Some (\<lambda>r. TextV (ename r))
      else None)"

datatype cond = ColEq string val | AndC cond cond | OrC cond cond

text \<open>
  A condition is analysed against the columns of the table before any row is looked at:
  a column the table does not have fails the statement, also on an empty table.
\<close>

primrec compile_cond :: "(string \<Rightarrow> ('r \<Rightarrow> val) option) \<Rightarrow> cond \<Rightarrow> error + ('r \<Rightarrow> bool)" where
  "compile_cond cols (ColEq c v) =
     (case cols c of None \<Rightarrow> Inl UndefinedColumn | Some f \<Rightarrow> Inr (\<lambda>r. f r = v))"
| "compile_cond cols (AndC a b) =
     (case compile_cond cols a of Inl e \<Rightarrow> Inl e
      | Inr p \<Rightarrow> (case compile_cond cols b of Inl e \<Rightarrow> Inl e
                  | Inr q \<Rightarrow> Inr (\<lambda>r. p r \<and> q r)))"
| "compile_cond cols (OrC a b) =
     (case compile_cond cols a of Inl e \<Rightarrow> Inl e
      | Inr p \<Rightarrow> (case compile_cond cols b of Inl e \<Rightarrow> Inl e
                  | Inr q \<Rightarrow> Inr (\<lambda>r. p r \<or> q r)))"

text \<open>The \<^verbatim>\<open>str\<close> parameters of a condition, in the order they are passed.\<close>

primrec text_params :: "cond \<Rightarrow> pystr list" where
  "text_params (ColEq c v) = (case v of IntV i \<Rightarrow> [] | TextV s \<Rightarrow> [s])"
| "text_params (AndC a b) = text_params a @ text_params b"
| "text_params (OrC a b) = text_params a @ text_params b"

text \<open>Finding a table: a statement on a table that is not there fails.\<close>

definition find_nodes :: "database \<Rightarrow> pystr \<Rightarrow> error + node_row table" where
  "find_nodes db ns =
     (case map_of db ns of None \<Rightarrow> Inl UndefinedTable
      | Some s \<Rightarrow> (case nodes_table s of None \<Rightarrow> Inl UndefinedTable | Some t \<Rightarrow> Inr t))"

definition find_edges :: "database \<Rightarrow> pystr \<Rightarrow> error + edge_row table" where
  "find_edges db ns =
     (case map_of db ns of None \<Rightarrow> Inl UndefinedTable
      | Some s \<Rightarrow> (case edges_table s of None \<Rightarrow> Inl UndefinedTable | Some t \<Rightarrow> Inr t))"

definition store_nodes :: "database \<Rightarrow> pystr \<Rightarrow> node_row table \<Rightarrow> database" where
  "store_nodes db ns t =
     (case map_of db ns of None \<Rightarrow> db
      | Some s \<Rightarrow> AList.update ns (s\<lparr>nodes_table := Some t\<rparr>) db)"

definition store_edges :: "database \<Rightarrow> pystr \<Rightarrow> edge_row table \<Rightarrow> database" where
  "store_edges db ns t =
     (case map_of db ns of None \<Rightarrow> db
      | Some s \<Rightarrow> AList.update ns (s\<lparr>edges_table := Some t\<rparr>) db)"

text \<open>The statements of the program.\<close>

definition new_table :: "'r table" where
  "new_table = \<lparr>rows = [], serial = 1\<rparr>"

text \<open>
  \<^verbatim>\<open>CREATE SCHEMA IF NOT EXISTS ns\<close>: the store refuses a name that begins with
  \<^verbatim>\<open>pg_\<close>, and it does so before it looks whether the namespace is there.
\<close>

definition create_schema :: "database \<Rightarrow> pystr \<Rightarrow> error + database" where
  "create_schema db ns =
     (case client_error ns [] of Some e \<Rightarrow> Inl e
      | None \<Rightarrow>
          if startswith ns (ustr ''pg_'') then Inl ReservedName
          else (case map_of db ns of
                  None \<Rightarrow> Inr (AList.update ns \<lparr>nodes_table = None, edges_table = None\<rparr> db)
                | Some s \<Rightarrow> Inr db))"

text \<open>\<^verbatim>\<open>CREATE TABLE IF NOT EXISTS ns.nodes (id SERIAL PRIMARY KEY, name TEXT NOT NULL)\<close>\<close>

definition create_nodes :: "database \<Rightarrow> pystr \<Rightarrow> error + database" where
  "create_nodes db ns =
     (case client_error ns [] of Some e \<Rightarrow> Inl e
      | None \<Rightarrow>
          (case map_of db ns of None \<Rightarrow> Inl InvalidSchemaName
           | Some s \<Rightarrow> (case nodes_table s of
                          None \<Rightarrow> Inr (store_nodes db ns new_table)
                        | Some t \<Rightarrow> Inr db)))"

text \<open>\<^verbatim>\<open>CREATE TABLE IF NOT EXISTS ns.edges (id SERIAL PRIMARY KEY,
  start_node integer NOT NULL, end_node integer NOT NULL, name TEXT NOT NULL)\<close>\<close>

definition create_edges :: "database \<Rightarrow> pystr \<Rightarrow> error + database" where
  "create_edges db ns =
     (case client_error ns [] of Some e \<Rightarrow> Inl e
      | None \<Rightarrow>
          (case map_of db ns of None \<Rightarrow> Inl InvalidSchemaName
           | Some s \<Rightarrow> (case edges_table s of
                          None \<Rightarrow> Inr (store_edges db ns new_table)
                        | Some t \<Rightarrow> Inr db)))"

text \<open>
  \<^verbatim>\<open>INSERT INTO ns.nodes (name) VALUES (%s)\<close>: the id is the next value of the
  sequence, and the statement fails when the sequence has none left.
\<close>

definition insert_node :: "database \<Rightarrow> pystr \<Rightarrow> pystr \<Rightarrow> error + database" where
  "insert_node db ns name =
     (case client_error ns [name] of Some e \<Rightarrow> Inl e
      | None \<Rightarrow>
          (case find_nodes db ns of Inl e \<Rightarrow> Inl e
           | Inr t \<Rightarrow>
               if 2147483647 < serial t then Inl SequenceGeneratorLimitExceeded
               else Inr (store_nodes db ns
                 (t\<lparr>rows := rows t @ [\<lparr>nid = serial t, nname = name\<rparr>],
                    serial := serial t + 1\<rparr>))))"

text \<open>\<^verbatim>\<open>INSERT INTO ns.edges (start_node, end_node, name) VALUES (%s, %s, ' ')\<close>\<close>

definition insert_edge :: "database \<Rightarrow> pystr \<Rightarrow> int \<Rightarrow> int \<Rightarrow> error + database" where
  "insert_edge db ns s e =
     (case client_error ns [] of Some err \<Rightarrow> Inl err
      | None \<Rightarrow>
          (case find_edges db ns of Inl err \<Rightarrow> Inl err
           | Inr t \<Rightarrow>
               if 2147483647 < serial t then Inl SequenceGeneratorLimitExceeded
               else Inr (store_edges db ns
                 (t\<lparr>rows := rows t @
                       [\<lparr>eid = serial t, start_node = s, end_node = e, ename = ustr '' ''\<rparr>],
                    serial := serial t + 1\<rparr>))))"

text \<open>\<^verbatim>\<open>SELECT id, name FROM ns.nodes\<close> and \<^verbatim>\<open>SELECT start_node, end_node FROM ns.edges\<close>\<close>

definition select_nodes :: "database \<Rightarrow> pystr \<Rightarrow> error + (int \<times> pystr) list" where
  "select_nodes db ns =
     (case client_error ns [] of Some e \<Rightarrow> Inl e
      | None \<Rightarrow>
          (case find_nodes db ns of Inl e \<Rightarrow> Inl e
           | Inr t \<Rightarrow> Inr (map (\<lambda>r. (nid r, nname r)) (rows t))))"

definition select_edges :: "database \<Rightarrow> pystr \<Rightarrow> error + (int \<times> int) list" where
  "select_edges db ns =
     (case client_error ns [] of Some e \<Rightarrow> Inl e
      | None \<Rightarrow>
          (case find_edges db ns of Inl e \<Rightarrow> Inl e
           | Inr t \<Rightarrow> Inr (map (\<lambda>r. (start_node r, end_node r)) (rows t))))"

text \<open>\<^verbatim>\<open>DELETE FROM ns.nodes WHERE c\<close> and \<^verbatim>\<open>DELETE FROM ns.edges WHERE c\<close>\<close>

definition delete_nodes_where :: "database \<Rightarrow> pystr \<Rightarrow> cond \<Rightarrow> error + database" where
  "delete_nodes_where db ns c =
     (case client_error ns (text_params c) of Some e \<Rightarrow> Inl e
      | None \<Rightarrow>
          (case find_nodes db ns of Inl e \<Rightarrow> Inl e
           | Inr t \<Rightarrow>
               (case compile_cond node_column c of Inl e \<Rightarrow> Inl e
                | Inr p \<Rightarrow>
                    Inr (store_nodes db ns (t\<lparr>rows := filter (\<lambda>r. \<not> p r) (rows t)\<rparr>)))))"

definition delete_edges_where :: "database \<Rightarrow> pystr \<Rightarrow> cond \<Rightarrow> error + database" where
  "delete_edges_where db ns c =
     (case client_error ns (text_params c) of Some e \<Rightarrow> Inl e
      | None \<Rightarrow>
          (case find_edges db ns of Inl e \<Rightarrow> Inl e
           | Inr t \<Rightarrow>
               (case compile_cond edge_column c of Inl e \<Rightarrow> Inl e
                | Inr p \<Rightarrow>
                    Inr (store_edges db ns (t\<lparr>rows := filter (\<lambda>r. \<not> p r) (rows t)\<rparr>)))))"

section \<open>The data-access functions of app.py\<close>

text \<open>
  \<^verbatim>\<open>with get_connection() as conn:\<close> runs its body in a transaction: when the body
  raises, the block rolls back what the body did since the last commit and the exception
  goes on to the caller; otherwise the block commits. Every body of the program commits
  as its last step or only reads, so a transaction is a function from the store to an
  error or a result and the new store. A rollback does not give back the values drawn
  from a sequence; no body of the program draws one and fails afterwards (an exhausted
  sequence gives no value), so restoring the whole store is the same.
\<close>

definition with_connection ::
    "(database \<Rightarrow> error + ('a \<times> database)) \<Rightarrow> database \<Rightarrow> (error + 'a) \<times> database" where
  "with_connection body db =
     (case body db of Inl e \<Rightarrow> (Inl e, db) | Inr (r, db') \<Rightarrow> (Inr r, db'))"

definition init_database :: "environ \<Rightarrow> database \<Rightarrow> (error + pyval) \<times> database" where
  "init_database env = with_connection (\<lambda>db.
     let schema_name = get_schema_name env in
     case create_schema db schema_name of Inl e \<Rightarrow> Inl e
     | Inr db1 \<Rightarrow> (case create_nodes db1 schema_name of Inl e \<Rightarrow> Inl e
     | Inr db2 \<Rightarrow> (case create_edges db2 schema_name of Inl e \<Rightarrow> Inl e
     | Inr db3 \<Rightarrow> Inr (PyBool True, db3))))"

definition add_node :: "environ \<Rightarrow> database \<Rightarrow> pystr \<Rightarrow> (error + pyval) \<times> database" where
  "add_node env db0 node = with_connection (\<lambda>db.
     let schema = get_schema_name env in
     case insert_node db schema (strip node) of Inl e \<Rightarrow> Inl e
     | Inr db1 \<Rightarrow> Inr (PyNone, db1)) db0"

definition get_edges :: "environ \<Rightarrow> database \<Rightarrow> (error + (int \<times> int) list) \<times> database" where
  "get_edges env = with_connection (\<lambda>db.
     let schema = get_schema_name env in
     case select_edges db schema of Inl e \<Rightarrow> Inl e
     | Inr fetched \<Rightarrow> Inr (fetched, db))"

definition get_nodes :: "environ \<Rightarrow> database \<Rightarrow> (error + (int \<times> pystr) list) \<times> database" where
  "get_nodes env = with_connection (\<lambda>db.
     let schema = get_schema_name env in
     case select_nodes db schema of Inl e \<Rightarrow> Inl e
     | Inr fetched \<Rightarrow> Inr (fetched, db))"

text \<open>
  \<open>add_edge\<close> reads the nodes first. The two subscripts of \<open>d_swap\<close> are arguments of
  \<^verbatim>\<open>cur.execute\<close>, so they are evaluated, start before end, before the statement runs.
\<close>

definition add_edge :: "environ \<Rightarrow> database \<Rightarrow> pystr \<Rightarrow> pystr \<Rightarrow> (error + pyval) \<times> database" where
  "add_edge env db0 start end =
     (case get_nodes env db0 of
        (Inl e, db1) \<Rightarrow> (Inl e, db1)
      | (Inr fetched, db1) \<Rightarrow>
          let node_dict = dict fetched;
              d_swap = swap_dict node_dict
          in with_connection (\<lambda>db.
               let schema = get_schema_name env in
               case getitem d_swap (strip start) of Inl e \<Rightarrow> Inl e
               | Inr s \<Rightarrow> (case getitem d_swap (strip end) of Inl e \<Rightarrow> Inl e
               | Inr t \<Rightarrow> (case insert_edge db schema s t of Inl e \<Rightarrow> Inl e
               | Inr db2 \<Rightarrow> Inr (PyNone, db2)))) db1)"

text \<open>
  \<open>delete_edge\<close> and \<open>delete_node\<close> name a column \<^verbatim>\<open>start\<close> in their conditions on the
  edges table. \<open>delete_node\<close> compares its one argument with the name column of the nodes
  and then with the two endpoint columns of the edges.
\<close>

definition delete_edge :: "environ \<Rightarrow> database \<Rightarrow> int \<Rightarrow> int \<Rightarrow> (error + pyval) \<times> database" where
  "delete_edge env db0 start end = with_connection (\<lambda>db.
     let schema = get_schema_name env in
     case delete_edges_where db schema
            (AndC (ColEq ''start'' (IntV start)) (ColEq ''end_node'' (IntV end))) of
       Inl e \<Rightarrow> Inl e
     | Inr db1 \<Rightarrow> Inr (PyNone, db1)) db0"

definition delete_node :: "environ \<Rightarrow> database \<Rightarrow> pystr \<Rightarrow> (error + pyval) \<times> database" where
  "delete_node env db0 node_id = with_connection (\<lambda>db.
     let schema = get_schema_name env in
     case delete_nodes_where db schema (ColEq ''name'' (TextV node_id)) of Inl e \<Rightarrow> Inl e
     | Inr db1 \<Rightarrow>
         (case delete_edges_where db1 schema
                 (OrC (ColEq ''start'' (TextV node_id)) (ColEq ''end_node'' (TextV node_id))) of
            Inl e \<Rightarrow> Inl e
          | Inr db2 \<Rightarrow> Inr (PyNone, db2))) db0"

text \<open>
  The graph that \<open>display_graph\<close> hands to the renderer: the nodes, then the edges, read
  one after the other.
\<close>

definition snapshot ::
    "environ \<Rightarrow> database \<Rightarrow> (error + (int \<times> pystr) list \<times> (int \<times> int) list) \<times> database" where
  "snapshot env db0 =
     (case get_nodes env db0 of
        (Inl e, db1) \<Rightarrow> (Inl e, db1)
      | (Inr vertices, db1) \<Rightarrow>
          (case get_edges env db1 of
             (Inl e, db2) \<Rightarrow> (Inl e, db2)
           | (Inr edge_list, db2) \<Rightarrow> (Inr (vertices, edge_list), db2)))"

section \<open>The two forms of main\<close>

text \<open>
  The handlers of the two forms: what \<^verbatim>\<open>st.success\<close> shows, and the store afterwards.
  An exception of \<open>add_node\<close> or \<open>add_edge\<close> is not caught in \<open>main\<close>.
\<close>

datatype message = NodeAdded | EdgeAdded

definition add_node_form ::
    "environ \<Rightarrow> database \<Rightarrow> bool \<Rightarrow> pystr \<Rightarrow> (error + message list) \<times> database" where
  "add_node_form env db submitted new_task =
     (if submitted \<and> strip new_task \<noteq> [] then
        (case add_node env db (strip new_task) of
           (Inl e, db1) \<Rightarrow> (Inl e, db1)
         | (Inr r, db1) \<Rightarrow> (Inr (if truthy r then [NodeAdded] else []), db1))
      else (Inr [], db))"

definition add_edge_form ::
    "environ \<Rightarrow> database \<Rightarrow> bool \<Rightarrow> pystr \<Rightarrow> pystr \<Rightarrow> (error + message list) \<times> database" where
  "add_edge_form env db submitted new_task new_task2 =
     (if submitted \<and> strip new_task \<noteq> [] \<and> strip new_task2 \<noteq> [] then
        (case add_edge env db (strip new_task) (strip new_task2) of
           (Inl e, db1) \<Rightarrow> (Inl e, db1)
         | (Inr r, db1) \<Rightarrow> (Inr (if truthy r then [EdgeAdded] else []), db1))
      else (Inr [], db))"

text \<open>
  The names for which \<^verbatim>\<open>CREATE SCHEMA\<close> is not refused: the ones that can be encoded
  and do not begin with \<^verbatim>\<open>pg_\<close>.
\<close>

definition acceptable_schema_name :: "pystr \<Rightarrow> bool" where
  "acceptable_schema_name ns \<longleftrightarrow> utf8_encodable ns \<and> \<not> startswith ns (ustr ''pg_'')"

text \<open>The namespace and its two tables are there.\<close>

definition schema_ready :: "database \<Rightarrow> pystr \<Rightarrow> bool" where
  "schema_ready db ns =
     (case map_of db ns of None \<Rightarrow> False
      | Some s \<Rightarrow> nodes_table s \<noteq> None \<and> edges_table s \<noteq> None)"

section \<open>Well-formed stores\<close>

text \<open>
  What \<^verbatim>\<open>SERIAL PRIMARY KEY\<close> gives: the ids of a table are distinct, and each came from
  the sequence, so it is at least 1 and below the sequence's next value, which is at most
  one beyond the sequence's end.
\<close>

definition wf_table :: "('r \<Rightarrow> int) \<Rightarrow> 'r table \<Rightarrow> bool" where
  "wf_table key t \<longleftrightarrow>
     distinct (map key (rows t)) \<and> list_all (\<lambda>r. 1 \<le> key r \<and> key r < serial t) (rows t) \<and>
     1 \<le> serial t \<and> serial t \<le> 2147483648"

definition wf_schema :: "schema \<Rightarrow> bool" where
  "wf_schema s \<longleftrightarrow>
     (case nodes_table s of None \<Rightarrow> True | Some t \<Rightarrow> wf_table nid t) \<and>
     (case edges_table s of None \<Rightarrow> True | Some t \<Rightarrow> wf_table eid t)"

definition wf_database :: "database \<Rightarrow> bool" where
  "wf_database db \<longleftrightarrow> list_all (\<lambda>(ns, s). wf_schema s) db"

text \<open>
  An environment, and under it the store of the scenario of the specification: nodes
  A and B and the edge from A to B.
\<close>

definition demo_env :: environ where
  "demo_env = [(''PGAPPNAME'', ustr ''graph''), (''PGUSER'', ustr ''u-1'')]"

definition demo_db :: database where
  "demo_db =
     [(ustr ''graph_schema_u1'',
       \<lparr>nodes_table = Some \<lparr>rows = [\<lparr>nid = 1, nname = ustr ''A''\<rparr>, \<lparr>nid = 2, nname = ustr ''B''\<rparr>],
                              serial = 3\<rparr>,
        edges_table = Some \<lparr>rows = [\<lparr>eid = 1, start_node = 1, end_node = 2, ename = ustr '' ''\<rparr>],
                              serial = 2\<rparr>\<rparr>)]"

section \<open>Transactions and reads\<close>

lemma with_connection_Inl: "body db = Inl e \<Longrightarrow> with_connection body db = (Inl e, db)"
  by (simp add: with_connection_def)

lemma with_connection_Inr: "body db = Inr (r, db') \<Longrightarrow> with_connection body db = (Inr r, db')"
  by (simp add: with_connection_def)

lemma get_nodes_eq: "get_nodes env db = (select_nodes db (get_schema_name env), db)"
  by (simp add: get_nodes_def with_connection_def split: sum.splits)

lemma get_edges_eq: "get_edges env db = (select_edges db (get_schema_name env), db)"
  by (simp add: get_edges_def with_connection_def split: sum.splits)

section \<open>Python dictionaries\<close>

lemma set_update_subset: "set (AList.update k v al) \<subseteq> insert (k, v) (set al)"
  by (induction al) auto

lemma update_fresh: "k \<notin> fst ` set al \<Longrightarrow> AList.update k v al = al @ [(k, v)]"
  by (induction al) auto

lemma map_of_foldl_update:
  "map_of (foldl (\<lambda>d (k, v). AList.update k v d) acc xs) k =
     (case map_of (rev xs) k of None \<Rightarrow> map_of acc k | Some v \<Rightarrow> Some v)"
  by (induction xs arbitrary: acc) (auto simp: update_conv' map_add_def split: option.splits)

lemma set_foldl_update:
  "set (foldl (\<lambda>d (k, v). AList.update k v d) acc xs) \<subseteq> set acc \<union> set xs"
proof (induction xs arbitrary: acc)
  case Nil
  then show ?case by simp
next
  case (Cons x xs)
  obtain k v where x: "x = (k, v)" by (cases x)
  have "set (foldl (\<lambda>d (k, v). AList.update k v d) (AList.update k v acc) xs)
          \<subseteq> set (AList.update k v acc) \<union> set xs"
    by (rule Cons.IH)
  also have "\<dots> \<subseteq> insert (k, v) (set acc) \<union> set xs"
    using set_update_subset [of k v acc] by blast
  finally show ?case by (auto simp: x)
qed

lemma foldl_update_distinct:
  "distinct (map fst (acc @ xs)) \<Longrightarrow>
     foldl (\<lambda>d (k, v). AList.update k v d) acc xs = acc @ xs"
proof (induction xs arbitrary: acc)
  case Nil
  then show ?case by simp
next
  case (Cons x xs)
  obtain k v where x: "x = (k, v)" by (cases x)
  from Cons.prems have fresh: "k \<notin> fst ` set acc" by (auto simp: x)
  from Cons.prems have "distinct (map fst ((acc @ [(k, v)]) @ xs))" by (auto simp: x)
  then have "foldl (\<lambda>d (k, v). AList.update k v d) (acc @ [(k, v)]) xs = (acc @ [(k, v)]) @ xs"
    by (rule Cons.IH)
  then show ?case by (simp add: x update_fresh [OF fresh])
qed

lemma dict_distinct: "distinct (map fst xs) \<Longrightarrow> dict xs = xs"
  using foldl_update_distinct [of "[]" xs] by (simp add: dict_def)

lemma set_dict: "set (dict xs) \<subseteq> set xs"
  using set_foldl_update [of "[]" xs] by (simp add: dict_def)

lemma swap_dict_conv:
  "swap_dict d = foldl (\<lambda>acc (k, v). AList.update k v acc) [] (map (\<lambda>(k, v). (v, k)) d)"
  by (simp add: swap_dict_def foldl_map case_prod_unfold)

lemma map_of_swap_dict:
  "map_of (swap_dict d) n = map_of (rev (map (\<lambda>(k, v). (v, k)) d)) n"
  by (simp add: swap_dict_conv map_of_foldl_update rev_map split: option.splits)

lemma getitem_missing:
  assumes "n \<notin> snd ` set nodes"
  shows "getitem (swap_dict (dict nodes)) n = Inl KeyError"
proof -
  have "n \<notin> snd ` set (dict nodes)" using assms set_dict [of nodes] by blast
  then have "n \<notin> fst ` set (rev (map (\<lambda>(k, v). (v, k)) (dict nodes)))" by force
  then have "map_of (rev (map (\<lambda>(k, v). (v, k)) (dict nodes))) n = None"
    by (simp only: map_of_eq_None_iff not_False_eq_True)
  then show ?thesis by (simp add: getitem_def map_of_swap_dict)
qed

lemma map_of_rev_swap_last:
  "n \<in> snd ` set nodes \<Longrightarrow>
     map_of (rev (map (\<lambda>(k, v). (v, k)) nodes)) n = Some (fst (last (filter (\<lambda>p. snd p = n) nodes)))"
proof (induction nodes rule: rev_induct)
  case Nil
  then show ?case by simp
next
  case (snoc x xs)
  obtain k v where x: "x = (k, v)" by (cases x)
  show ?case
  proof (cases "v = n")
    case True
    then show ?thesis by (simp add: x)
  next
    case False
    with snoc.prems have "n \<in> snd ` set xs" by (auto simp: x)
    then show ?thesis using snoc.IH False by (simp add: x)
  qed
qed

lemma getitem_present:
  assumes "distinct (map fst nodes)" and "n \<in> snd ` set nodes"
  shows "getitem (swap_dict (dict nodes)) n = Inr (fst (last (filter (\<lambda>p. snd p = n) nodes)))"
  using assms by (simp add: getitem_def map_of_swap_dict dict_distinct map_of_rev_swap_last)

lemma getitem_sound:
  assumes "getitem (swap_dict (dict nodes)) m = Inr i"
  shows "(i, m) \<in> set nodes"
proof -
  from assms have "map_of (rev (map (\<lambda>(k, v). (v, k)) (dict nodes))) m = Some i"
    by (simp add: getitem_def map_of_swap_dict split: option.splits)
  then have "(m, i) \<in> set (rev (map (\<lambda>(k, v). (v, k)) (dict nodes)))"
    by (rule map_of_SomeD)
  then have "(i, m) \<in> set (dict nodes)" by auto
  then show ?thesis using set_dict [of nodes] by blast
qed

section \<open>Tables of the store\<close>

lemma client_error_Nil: "client_error ns [] = None \<longleftrightarrow> utf8_encodable ns"
  by (simp add: client_error_def)

lemma client_error_None: "client_error ns ps = None \<Longrightarrow> utf8_encodable ns"
  by (simp add: client_error_def split: if_splits)

lemma find_nodes_Inr:
  "find_nodes db ns = Inr t \<longleftrightarrow> (\<exists>s. map_of db ns = Some s \<and> nodes_table s = Some t)"
  by (auto simp: find_nodes_def split: option.splits)

lemma find_edges_Inr:
  "find_edges db ns = Inr t \<longleftrightarrow> (\<exists>s. map_of db ns = Some s \<and> edges_table s = Some t)"
  by (auto simp: find_edges_def split: option.splits)

lemma find_nodes_store_nodes:
  "find_nodes db ns = Inr t \<Longrightarrow> find_nodes (store_nodes db ns t') ns = Inr t'"
  by (auto simp: find_nodes_def store_nodes_def update_conv' split: option.splits)

lemma find_edges_store_edges:
  "find_edges db ns = Inr t \<Longrightarrow> find_edges (store_edges db ns t') ns = Inr t'"
  by (auto simp: find_edges_def store_edges_def update_conv' split: option.splits)

lemma find_edges_store_nodes: "find_edges (store_nodes db ns t') ns = find_edges db ns"
  by (auto simp: find_edges_def store_nodes_def update_conv' split: option.splits)

lemma find_nodes_store_edges: "find_nodes (store_edges db ns t') ns = find_nodes db ns"
  by (auto simp: find_nodes_def store_edges_def update_conv' split: option.splits)

lemma list_all_update:
  "list_all P al \<Longrightarrow> P (k, v) \<Longrightarrow> list_all P (AList.update k v al)"
  by (induction al) auto

lemma wf_database_lookup:
  "wf_database db \<Longrightarrow> map_of db ns = Some s \<Longrightarrow> wf_schema s"
  by (auto simp: wf_database_def list_all_iff dest: map_of_SomeD)

lemma wf_database_update:
  "wf_database db \<Longrightarrow> wf_schema s \<Longrightarrow> wf_database (AList.update ns s db)"
  unfolding wf_database_def by (rule list_all_update) simp_all

lemma wf_store_nodes:
  assumes "wf_database db" and "wf_table nid t'"
  shows "wf_database (store_nodes db ns t')"
proof (cases "map_of db ns")
  case None
  then show ?thesis using assms by (simp add: store_nodes_def)
next
  case (Some s)
  then have "wf_schema s" using assms(1) by (rule wf_database_lookup [rotated])
  then have "wf_schema (s\<lparr>nodes_table := Some t'\<rparr>)"
    using assms(2) by (simp add: wf_schema_def)
  then show ?thesis using Some assms(1) by (simp add: store_nodes_def wf_database_update)
qed

lemma wf_store_edges:
  assumes "wf_database db" and "wf_table eid t'"
  shows "wf_database (store_edges db ns t')"
proof (cases "map_of db ns")
  case None
  then show ?thesis using assms by (simp add: store_edges_def)
next
  case (Some s)
  then have "wf_schema s" using assms(1) by (rule wf_database_lookup [rotated])
  then have "wf_schema (s\<lparr>edges_table := Some t'\<rparr>)"
    using assms(2) by (simp add: wf_schema_def)
  then show ?thesis using Some assms(1) by (simp add: store_edges_def wf_database_update)
qed

lemma wf_table_append:
  "wf_table key t \<Longrightarrow> key r = serial t \<Longrightarrow> serial t \<le> 2147483647 \<Longrightarrow>
     wf_table key (t\<lparr>rows := rows t @ [r], serial := serial t + 1\<rparr>)"
  by (auto simp: wf_table_def list_all_iff)

lemma wf_table_filter:
  "wf_table key t \<Longrightarrow> wf_table key (t\<lparr>rows := filter P (rows t)\<rparr>)"
  by (auto simp: wf_table_def list_all_iff distinct_map_filter)

lemma wf_table_new: "wf_table key new_table"
  by (simp add: wf_table_def new_table_def)

lemma wf_find_nodes: "wf_database db \<Longrightarrow> find_nodes db ns = Inr t \<Longrightarrow> wf_table nid t"
  unfolding find_nodes_Inr by (auto dest: wf_database_lookup simp: wf_schema_def)

lemma wf_find_edges: "wf_database db \<Longrightarrow> find_edges db ns = Inr t \<Longrightarrow> wf_table eid t"
  unfolding find_edges_Inr by (auto dest: wf_database_lookup simp: wf_schema_def)

lemma insert_node_Inr:
  "insert_node db ns name = Inr db' \<longleftrightarrow>
     client_error ns [name] = None \<and>
     (\<exists>t. find_nodes db ns = Inr t \<and> serial t \<le> 2147483647 \<and>
          db' = store_nodes db ns
            (t\<lparr>rows := rows t @ [\<lparr>nid = serial t, nname = name\<rparr>], serial := serial t + 1\<rparr>))"
  by (auto simp: insert_node_def split: option.splits sum.splits)

lemma insert_edge_Inr:
  "insert_edge db ns s e = Inr db' \<longleftrightarrow>
     utf8_encodable ns \<and>
     (\<exists>t. find_edges db ns = Inr t \<and> serial t \<le> 2147483647 \<and>
          db' = store_edges db ns
            (t\<lparr>rows := rows t @
                  [\<lparr>eid = serial t, start_node = s, end_node = e, ename = ustr '' ''\<rparr>],
               serial := serial t + 1\<rparr>))"
  by (auto simp: insert_edge_def client_error_def split: option.splits sum.splits if_splits)

lemma wf_insert_node:
  "wf_database db \<Longrightarrow> insert_node db ns name = Inr db' \<Longrightarrow> wf_database db'"
  unfolding insert_node_Inr
  by (auto intro!: wf_store_nodes wf_table_append dest: wf_find_nodes)

lemma wf_insert_edge:
  "wf_database db \<Longrightarrow> insert_edge db ns s e = Inr db' \<Longrightarrow> wf_database db'"
  unfolding insert_edge_Inr
  by (auto intro!: wf_store_edges wf_table_append dest: wf_find_edges)

lemma wf_delete_nodes_where:
  "wf_database db \<Longrightarrow> delete_nodes_where db ns c = Inr db' \<Longrightarrow> wf_database db'"
  by (auto simp: delete_nodes_where_def split: option.splits sum.splits
      intro!: wf_store_nodes wf_table_filter dest: wf_find_nodes)

lemma wf_delete_edges_where:
  "wf_database db \<Longrightarrow> delete_edges_where db ns c = Inr db' \<Longrightarrow> wf_database db'"
  by (auto simp: delete_edges_where_def split: option.splits sum.splits
      intro!: wf_store_edges wf_table_filter dest: wf_find_edges)

lemma wf_create_schema:
  "wf_database db \<Longrightarrow> create_schema db ns = Inr db' \<Longrightarrow> wf_database db'"
  by (auto simp: create_schema_def wf_schema_def intro!: wf_database_update
      split: option.splits if_splits)

lemma wf_create_nodes:
  "wf_database db \<Longrightarrow> create_nodes db ns = Inr db' \<Longrightarrow> wf_database db'"
  by (auto simp: create_nodes_def split: option.splits intro!: wf_store_nodes wf_table_new)

lemma wf_create_edges:
  "wf_database db \<Longrightarrow> create_edges db ns = Inr db' \<Longrightarrow> wf_database db'"
  by (auto simp: create_edges_def split: option.splits intro!: wf_store_edges wf_table_new)

lemma wf_database_empty: "wf_database []"
  by (simp add: wf_database_def)

lemma wf_init_database: "wf_database db \<Longrightarrow> wf_database (snd (init_database env db))"
  by (auto simp: init_database_def with_connection_def Let_def split: sum.splits)
    (blast intro: wf_create_schema wf_create_nodes wf_create_edges)

lemma wf_add_node: "wf_database db \<Longrightarrow> wf_database (snd (add_node env db node))"
  by (auto simp: add_node_def with_connection_def Let_def split: sum.splits dest: wf_insert_node)

lemma wf_add_edge: "wf_database db \<Longrightarrow> wf_database (snd (add_edge env db start end))"
  by (auto simp: add_edge_def get_nodes_eq with_connection_def Let_def split: sum.splits
      dest: wf_insert_edge)

lemma wf_delete_edge: "wf_database db \<Longrightarrow> wf_database (snd (delete_edge env db start end))"
  by (auto simp: delete_edge_def with_connection_def Let_def split: sum.splits
      dest: wf_delete_edges_where)

lemma wf_delete_node: "wf_database db \<Longrightarrow> wf_database (snd (delete_node env db node_id))"
  by (auto simp: delete_node_def with_connection_def Let_def split: sum.splits
      dest: wf_delete_edges_where wf_delete_nodes_where)

section \<open>The operations\<close>

lemma getitem_Inl: "getitem d k = Inl e \<Longrightarrow> e = KeyError"
  by (auto simp: getitem_def split: option.splits)

lemma add_edge_KeyError:
  assumes nodes: "fst (get_nodes env db) = Inr nodes"
    and missing: "strip start \<notin> snd ` set nodes \<or> strip end \<notin> snd ` set nodes"
  shows "add_edge env db start end = (Inl KeyError, db)"
proof -
  let ?d = "swap_dict (dict nodes)"
  from nodes have sel: "select_nodes db (get_schema_name env) = Inr nodes"
    by (simp add: get_nodes_eq)
  show ?thesis
  proof (cases "getitem ?d (strip start)")
    case (Inl e)
    then have "e = KeyError" by (rule getitem_Inl)
    with Inl show ?thesis
      by (simp add: add_edge_def get_nodes_eq sel with_connection_def)
  next
    case (Inr s)
    then have "(s, strip start) \<in> set nodes" by (rule getitem_sound)
    then have "strip start \<in> snd ` set nodes" by force
    with missing have "strip end \<notin> snd ` set nodes" by simp
    then have "getitem ?d (strip end) = Inl KeyError" by (rule getitem_missing)
    with Inr show ?thesis
      by (simp add: add_edge_def get_nodes_eq sel with_connection_def)
  qed
qed

lemma select_nodes_store_nodes:
  "find_nodes db ns = Inr t \<Longrightarrow> utf8_encodable ns \<Longrightarrow>
     select_nodes (store_nodes db ns t') ns = Inr (map (\<lambda>r. (nid r, nname r)) (rows t'))"
  by (simp add: select_nodes_def client_error_def find_nodes_store_nodes)

lemma select_edges_store_edges:
  "find_edges db ns = Inr t \<Longrightarrow> utf8_encodable ns \<Longrightarrow>
     select_edges (store_edges db ns t') ns = Inr (map (\<lambda>r. (start_node r, end_node r)) (rows t'))"
  by (simp add: select_edges_def client_error_def find_edges_store_edges)


lemma select_edges_Inr:
  "select_edges db ns = Inr edges \<Longrightarrow>
     utf8_encodable ns \<and>
     (\<exists>t. find_edges db ns = Inr t \<and> edges = map (\<lambda>r. (start_node r, end_node r)) (rows t))"
  by (auto simp: select_edges_def client_error_def split: option.splits sum.splits if_splits)

lemma select_nodes_find:
  "find_nodes db ns = Inr t \<Longrightarrow> utf8_encodable ns \<Longrightarrow>
     select_nodes db ns = Inr (map (\<lambda>r. (nid r, nname r)) (rows t))"
  by (simp add: select_nodes_def client_error_def)

lemma select_edges_find:
  "find_edges db ns = Inr t \<Longrightarrow> utf8_encodable ns \<Longrightarrow>
     select_edges db ns = Inr (map (\<lambda>r. (start_node r, end_node r)) (rows t))"
  by (simp add: select_edges_def client_error_def)

lemma add_node_ok:
  assumes "find_nodes db (get_schema_name env) = Inr t"
    and "client_error (get_schema_name env) [strip input] = None"
    and "serial t \<le> 2147483647"
  shows "add_node env db input =
           (Inr PyNone, store_nodes db (get_schema_name env)
              (t\<lparr>rows := rows t @ [\<lparr>nid = serial t, nname = strip input\<rparr>],
                 serial := serial t + 1\<rparr>))"
  using assms by (simp add: add_node_def with_connection_def insert_node_def)

lemma add_node_Inr:
  "add_node env db input = (Inr r, db') \<Longrightarrow>
     client_error (get_schema_name env) [strip input] = None \<and>
     (\<exists>t. find_nodes db (get_schema_name env) = Inr t \<and> serial t \<le> 2147483647)"
  by (auto simp: add_node_def with_connection_def insert_node_Inr Let_def split: sum.splits)

lemma snapshot_eq:
  "snapshot env db =
     ((case select_nodes db (get_schema_name env) of Inl e \<Rightarrow> Inl e
       | Inr vertices \<Rightarrow> (case select_edges db (get_schema_name env) of Inl e \<Rightarrow> Inl e
                          | Inr edge_list \<Rightarrow> Inr (vertices, edge_list))), db)"
  by (simp add: snapshot_def get_nodes_eq get_edges_eq split: sum.splits)


lemma replace_occ_single: "replace_occ [c] [] s = filter (\<lambda>x. x \<noteq> c) s"
  by (induction s) auto

lemma replace_single: "replace s [c] [] = filter (\<lambda>x. x \<noteq> c) s"
  by (simp add: replace_def replace_occ_single)

lemma get_schema_name_eq:
  "get_schema_name env =
     getenv env ''PGAPPNAME'' (ustr ''my_app'') @ ustr ''_schema_'' @
     filter (\<lambda>c. c \<noteq> of_char CHR ''-'') (getenv env ''PGUSER'' [])"
  by (simp add: get_schema_name_def ustr_def replace_single)

lemma dropWhile_strip_start: "dropWhile is_space (strip s) = strip s"
proof -
  let ?t = "dropWhile is_space s"
  have split: "?t = strip s @ rev (takeWhile is_space (rev ?t))"
    by (metis rev_append rev_rev_ident strip_def takeWhile_dropWhile_id)
  show ?thesis
  proof (cases "strip s")
    case Nil
    then show ?thesis by simp
  next
    case (Cons x xs)
    with split have t: "?t = x # (xs @ rev (takeWhile is_space (rev ?t)))" by simp
    then have "?t \<noteq> []" by (metis list.distinct(1))
    then have "\<not> is_space (hd ?t)" by (rule hd_dropWhile)
    moreover from t have "hd ?t = x" by (metis list.sel(1))
    ultimately have "\<not> is_space x" by simp
    with Cons show ?thesis by simp
  qed
qed

lemma strip_idem: "strip (strip s) = strip s"
proof -
  have "strip (strip s) = rev (dropWhile is_space (rev (strip s)))"
    by (simp add: strip_def [of "strip s"] dropWhile_strip_start)
  also have "\<dots> = strip s" by (simp add: strip_def)
  finally show ?thesis .
qed

lemma add_node_result: "add_node env db node = (Inr r, db') \<Longrightarrow> r = PyNone"
  by (auto simp: add_node_def with_connection_def Let_def split: sum.splits)

lemma add_edge_result: "add_edge env db start end = (Inr r, db') \<Longrightarrow> r = PyNone"
  by (auto simp: add_edge_def get_nodes_eq with_connection_def Let_def split: sum.splits)

lemma add_edge_Inr:
  assumes "add_edge env db start end = (Inr r, db')"
  shows "utf8_encodable (get_schema_name env) \<and>
         (\<exists>t a b. find_edges db (get_schema_name env) = Inr t \<and>
           db' = store_edges db (get_schema_name env)
             (t\<lparr>rows := rows t @ [\<lparr>eid = serial t, start_node = a, end_node = b, ename = ustr '' ''\<rparr>],
                serial := serial t + 1\<rparr>))"
  using assms
  by (auto simp: add_edge_def get_nodes_eq with_connection_def insert_edge_Inr Let_def
      split: sum.splits)

lemma add_node_inserts:
  assumes "add_node env db node = (Inr r, db')"
  shows "\<exists>nodes i. fst (get_nodes env db) = Inr nodes \<and>
           fst (get_nodes env db') = Inr (nodes @ [(i, strip node)])"
proof -
  from add_node_Inr [OF assms] obtain t
    where c: "client_error (get_schema_name env) [strip node] = None"
      and t: "find_nodes db (get_schema_name env) = Inr t"
      and b: "serial t \<le> 2147483647"
    by blast
  from c have u: "utf8_encodable (get_schema_name env)" by (rule client_error_None)
  from assms have "db' = store_nodes db (get_schema_name env)
      (t\<lparr>rows := rows t @ [\<lparr>nid = serial t, nname = strip node\<rparr>], serial := serial t + 1\<rparr>)"
    by (simp add: add_node_ok [OF t c b])
  then show ?thesis
    by (simp add: get_nodes_eq select_nodes_store_nodes [OF t u] select_nodes_find [OF t u])
qed

lemma add_edge_inserts:
  assumes "add_edge env db start end = (Inr r, db')"
  shows "\<exists>edges a b. fst (get_edges env db) = Inr edges \<and>
           fst (get_edges env db') = Inr (edges @ [(a, b)])"
proof -
  from add_edge_Inr [OF assms] obtain t a b
    where u: "utf8_encodable (get_schema_name env)"
      and t: "find_edges db (get_schema_name env) = Inr t"
      and db': "db' = store_edges db (get_schema_name env)
             (t\<lparr>rows := rows t @ [\<lparr>eid = serial t, start_node = a, end_node = b, ename = ustr '' ''\<rparr>],
                serial := serial t + 1\<rparr>)"
    by blast
  show ?thesis
    by (simp add: db' get_edges_eq select_edges_store_edges [OF t u] select_edges_find [OF t u])
qed

lemma edge_column_start: "edge_column ''start'' = None"
  by (simp add: edge_column_def)

lemma delete_edges_where_start:
  assumes "c = AndC (ColEq ''start'' v) c' \<or> c = OrC (ColEq ''start'' v) c'"
  shows "\<exists>e. delete_edges_where db ns c = Inl e"
proof (cases "client_error ns (text_params c)")
  case (Some e)
  then show ?thesis by (simp add: delete_edges_where_def)
next
  case None
  show ?thesis
  proof (cases "find_edges db ns")
    case (Inl e)
    with None show ?thesis by (simp add: delete_edges_where_def)
  next
    case (Inr t)
    from assms have "compile_cond edge_column c = (Inl UndefinedColumn :: error + (edge_row \<Rightarrow> bool))"
      by (auto simp: edge_column_start)
    with None Inr show ?thesis by (simp add: delete_edges_where_def)
  qed
qed

text \<open>Neither delete function ever succeeds or changes the store.\<close>

lemma delete_edge_fails:
  "snd (delete_edge env db start end) = db \<and> (\<exists>e. fst (delete_edge env db start end) = Inl e)"
proof -
  obtain e where "delete_edges_where db (get_schema_name env)
      (AndC (ColEq ''start'' (IntV start)) (ColEq ''end_node'' (IntV end))) = Inl e"
    using delete_edges_where_start by blast
  then show ?thesis by (simp add: delete_edge_def with_connection_def)
qed

lemma delete_node_fails:
  "snd (delete_node env db node_id) = db \<and> (\<exists>e. fst (delete_node env db node_id) = Inl e)"
proof (cases "delete_nodes_where db (get_schema_name env) (ColEq ''name'' (TextV node_id))")
  case (Inl e)
  then show ?thesis by (simp add: delete_node_def with_connection_def)
next
  case (Inr db1)
  obtain e where "delete_edges_where db1 (get_schema_name env)
      (OrC (ColEq ''start'' (TextV node_id)) (ColEq ''end_node'' (TextV node_id))) = Inl e"
    using delete_edges_where_start by blast
  with Inr show ?thesis by (simp add: delete_node_def with_connection_def)
qed

section \<open>Initialisation\<close>

lemma create_schema_ok:
  "acceptable_schema_name ns \<Longrightarrow>
     \<exists>db1 s. create_schema db ns = Inr db1 \<and> map_of db1 ns = Some s"
  by (cases "map_of db ns")
    (simp_all add: create_schema_def acceptable_schema_name_def client_error_def update_conv')

lemma create_schema_refused:
  "\<not> acceptable_schema_name ns \<Longrightarrow> \<exists>e. create_schema db ns = Inl e"
  by (auto simp: create_schema_def acceptable_schema_name_def client_error_def)

lemma create_nodes_ok:
  "map_of db ns = Some s \<Longrightarrow> utf8_encodable ns \<Longrightarrow>
     \<exists>db2 s2 t. create_nodes db ns = Inr db2 \<and> map_of db2 ns = Some s2 \<and> nodes_table s2 = Some t"
  by (cases "nodes_table s")
    (simp_all add: create_nodes_def client_error_def store_nodes_def update_conv')

lemma create_edges_ok:
  "map_of db ns = Some s \<Longrightarrow> nodes_table s = Some t \<Longrightarrow> utf8_encodable ns \<Longrightarrow>
     \<exists>db3 s3 t3. create_edges db ns = Inr db3 \<and> map_of db3 ns = Some s3 \<and>
        nodes_table s3 = Some t \<and> edges_table s3 = Some t3"
  by (cases "edges_table s")
    (simp_all add: create_edges_def client_error_def store_edges_def update_conv')

lemma init_database_establishes:
  assumes "acceptable_schema_name (get_schema_name env)"
  shows "fst (init_database env db) = Inr (PyBool True) \<and>
         schema_ready (snd (init_database env db)) (get_schema_name env)"
proof -
  let ?ns = "get_schema_name env"
  from assms have u: "utf8_encodable ?ns" by (simp add: acceptable_schema_name_def)
  obtain db1 s1 where 1: "create_schema db ?ns = Inr db1" "map_of db1 ?ns = Some s1"
    using create_schema_ok [OF assms] by blast
  obtain db2 s2 t2 where 2: "create_nodes db1 ?ns = Inr db2" "map_of db2 ?ns = Some s2"
      "nodes_table s2 = Some t2"
    using create_nodes_ok [OF 1(2) u] by blast
  obtain db3 s3 t3 where 3: "create_edges db2 ?ns = Inr db3" "map_of db3 ?ns = Some s3"
      "nodes_table s3 = Some t2" "edges_table s3 = Some t3"
    using create_edges_ok [OF 2(2,3) u] by blast
  have "init_database env db = (Inr (PyBool True), db3)"
    by (simp add: init_database_def with_connection_def Let_def 1 2 3)
  then show ?thesis by (simp add: schema_ready_def 3)
qed

lemma init_database_ready:
  assumes "acceptable_schema_name (get_schema_name env)"
    and "schema_ready db (get_schema_name env)"
  shows "init_database env db = (Inr (PyBool True), db)"
proof -
  from assms(2) obtain s tn te where "map_of db (get_schema_name env) = Some s"
    "nodes_table s = Some tn" "edges_table s = Some te"
    by (auto simp: schema_ready_def split: option.splits)
  with assms(1) show ?thesis
    by (simp add: init_database_def with_connection_def Let_def create_schema_def
        create_nodes_def create_edges_def acceptable_schema_name_def client_error_def)
qed

lemma init_database_refused:
  assumes "\<not> acceptable_schema_name (get_schema_name env)"
  shows "snd (init_database env db) = db \<and> (\<exists>e. fst (init_database env db) = Inl e)"
proof -
  obtain e where "create_schema db (get_schema_name env) = Inl e"
    using create_schema_refused [OF assms] by blast
  then show ?thesis by (simp add: init_database_def with_connection_def Let_def)
qed

lemma init_database_twice:
  "snd (init_database env (snd (init_database env db))) = snd (init_database env db)"
proof (cases "acceptable_schema_name (get_schema_name env)")
  case True
  then show ?thesis
    using init_database_ready [OF True] init_database_establishes [OF True] by simp
next
  case False
  then show ?thesis using init_database_refused [OF False] by simp
qed

lemma init_database_ready_store:
  "schema_ready db (get_schema_name env) \<Longrightarrow> snd (init_database env db) = db"
  by (cases "acceptable_schema_name (get_schema_name env)")
    (simp_all add: init_database_ready init_database_refused)

section \<open>The scenario\<close>

lemma demo_getenv:
  "getenv demo_env ''PGAPPNAME'' d = ustr ''graph''"
  "getenv demo_env ''PGUSER'' d = ustr ''u-1''"
  by (simp_all add: demo_env_def getenv_def)

lemma demo_schema_name: "get_schema_name demo_env = ustr ''graph_schema_u1''"
  by (simp add: get_schema_name_eq demo_getenv) (simp add: ustr_def)

lemma demo_encodable:
  "utf8_encodable (ustr ''graph_schema_u1'')"
  "utf8_encodable (get_schema_name demo_env)"
  by (simp_all add: demo_schema_name) (simp_all add: utf8_encodable_def ustr_def)

lemma demo_acceptable: "acceptable_schema_name (get_schema_name demo_env)"
  by (simp add: acceptable_schema_name_def demo_encodable) (simp add: demo_schema_name ustr_def)

lemma demo_dump:
  "dump_str (ustr ''A'') = None" "dump_str (ustr ''B'') = None"
  by (simp_all add: dump_str_def utf8_encodable_def ustr_def)

lemma demo_client_error:
  "client_error (get_schema_name demo_env) ps = dump_params ps"
  "client_error (ustr ''graph_schema_u1'') ps = dump_params ps"
  by (simp_all add: client_error_def demo_encodable)

lemma demo_find_nodes:
  "find_nodes demo_db (get_schema_name demo_env) =
     Inr \<lparr>rows = [\<lparr>nid = 1, nname = ustr ''A''\<rparr>, \<lparr>nid = 2, nname = ustr ''B''\<rparr>], serial = 3\<rparr>"
  by (simp add: demo_schema_name find_nodes_def demo_db_def)

lemma demo_find_edges:
  "find_edges demo_db (get_schema_name demo_env) =
     Inr \<lparr>rows = [\<lparr>eid = 1, start_node = 1, end_node = 2, ename = ustr '' ''\<rparr>], serial = 2\<rparr>"
  by (simp add: demo_schema_name find_edges_def demo_db_def)

lemma demo_get_nodes:
  "get_nodes demo_env demo_db = (Inr [(1, ustr ''A''), (2, ustr ''B'')], demo_db)"
  by (simp add: get_nodes_eq select_nodes_find [OF demo_find_nodes demo_encodable(2)])

lemma demo_get_edges: "get_edges demo_env demo_db = (Inr [(1, 2)], demo_db)"
  by (simp add: get_edges_eq select_edges_find [OF demo_find_edges demo_encodable(2)])


lemma demo_strip:
  "strip (ustr ''A'') = ustr ''A''" "strip (ustr ''B'') = ustr ''B''"
  "strip (ustr ''Z'') = ustr ''Z''" "strip (ustr '' A '') = ustr ''A''"
  "strip (ustr ''C'') = ustr ''C''" "strip [97, 0, 98] = [97, 0, 98]"
  by (simp_all add: strip_def ustr_def is_space_def)

lemma demo_names_distinct:
  "ustr ''A'' \<noteq> ustr ''B''" "ustr ''A'' \<noteq> ustr ''Z''" "ustr ''B'' \<noteq> ustr ''Z''"
  "ustr ''B'' \<noteq> ustr ''A''" "ustr ''Z'' \<noteq> ustr ''A''" "ustr ''Z'' \<noteq> ustr ''B''"
  "ustr ''C'' \<noteq> []"  "ustr ''A'' \<noteq> []" "ustr ''B'' \<noteq> []"
  by (simp_all add: ustr_def)

text \<open>The store of the scenario is what the program builds from an empty store.\<close>

lemma demo_db_reachable:
  "snd (add_edge demo_env
     (snd (add_node demo_env
        (snd (add_node demo_env (snd (init_database demo_env [])) (ustr ''A'')))
        (ustr ''B'')))
     (ustr ''A'') (ustr ''B'')) = demo_db"
proof -
  let ?ns = "ustr ''graph_schema_u1''"
  have r: "\<not> startswith ?ns (ustr ''pg_'')" by (simp add: ustr_def)
  have 0: "snd (init_database demo_env []) =
      [(?ns, \<lparr>nodes_table = Some new_table, edges_table = Some new_table\<rparr>)]"
    by (simp add: init_database_def with_connection_def Let_def demo_schema_name
        demo_client_error r create_schema_def create_nodes_def create_edges_def
        store_nodes_def store_edges_def)
  have 1: "snd (add_node demo_env
        [(?ns, \<lparr>nodes_table = Some new_table, edges_table = Some new_table\<rparr>)] (ustr ''A'')) =
      [(?ns, \<lparr>nodes_table = Some \<lparr>rows = [\<lparr>nid = 1, nname = ustr ''A''\<rparr>], serial = 2\<rparr>,
              edges_table = Some new_table\<rparr>)]"
    by (simp add: add_node_def with_connection_def Let_def demo_schema_name insert_node_def
        demo_client_error demo_dump find_nodes_def store_nodes_def new_table_def demo_strip)
  have 2: "snd (add_node demo_env
        [(?ns, \<lparr>nodes_table = Some \<lparr>rows = [\<lparr>nid = 1, nname = ustr ''A''\<rparr>], serial = 2\<rparr>,
              edges_table = Some new_table\<rparr>)] (ustr ''B'')) =
      [(?ns, \<lparr>nodes_table = Some \<lparr>rows = [\<lparr>nid = 1, nname = ustr ''A''\<rparr>,
                \<lparr>nid = 2, nname = ustr ''B''\<rparr>], serial = 3\<rparr>,
              edges_table = Some new_table\<rparr>)]"
    by (simp add: add_node_def with_connection_def Let_def demo_schema_name insert_node_def
        demo_client_error demo_dump find_nodes_def store_nodes_def demo_strip)
  have 3: "snd (add_edge demo_env
        [(?ns, \<lparr>nodes_table = Some \<lparr>rows = [\<lparr>nid = 1, nname = ustr ''A''\<rparr>,
                \<lparr>nid = 2, nname = ustr ''B''\<rparr>], serial = 3\<rparr>,
              edges_table = Some new_table\<rparr>)] (ustr ''A'') (ustr ''B'')) = demo_db"
    by (simp add: add_edge_def get_nodes_eq select_nodes_def with_connection_def Let_def
        demo_schema_name demo_client_error insert_edge_def find_nodes_def find_edges_def
        store_edges_def new_table_def demo_strip dict_def swap_dict_def getitem_def
        demo_names_distinct demo_db_def)
  show ?thesis by (simp only: 0 1 2 3)
qed

lemma demo_add_node:
  "dump_str (strip input) = None \<Longrightarrow>
   add_node demo_env demo_db input =
     (Inr PyNone, store_nodes demo_db (get_schema_name demo_env)
        \<lparr>rows = [\<lparr>nid = 1, nname = ustr ''A''\<rparr>, \<lparr>nid = 2, nname = ustr ''B''\<rparr>,
                  \<lparr>nid = 3, nname = strip input\<rparr>], serial = 4\<rparr>)"
  by (simp add: add_node_ok [OF demo_find_nodes] demo_client_error)

lemma demo_add_node_nodes:
  "dump_str (strip input) = None \<Longrightarrow>
   fst (get_nodes demo_env (snd (add_node demo_env demo_db input))) =
     Inr [(1, ustr ''A''), (2, ustr ''B''), (3, strip input)]"
  by (simp add: demo_add_node get_nodes_eq
      select_nodes_store_nodes [OF demo_find_nodes demo_encodable(2)])

lemma demo_resolve:
  "getitem (swap_dict (dict [(1::int, ustr ''A''), (2, ustr ''B'')])) (ustr ''A'') = Inr 1"
  "getitem (swap_dict (dict [(1::int, ustr ''A''), (2, ustr ''B'')])) (ustr ''B'') = Inr 2"
  by (simp_all add: dict_def swap_dict_def getitem_def demo_names_distinct)

lemma demo_add_edge:
  "add_edge demo_env demo_db (ustr ''A'') (ustr ''B'') =
     (Inr PyNone, store_edges demo_db (get_schema_name demo_env)
        \<lparr>rows = [\<lparr>eid = 1, start_node = 1, end_node = 2, ename = ustr '' ''\<rparr>,
                  \<lparr>eid = 2, start_node = 1, end_node = 2, ename = ustr '' ''\<rparr>], serial = 3\<rparr>)"
  by (simp add: add_edge_def demo_get_nodes with_connection_def Let_def demo_strip demo_resolve
      insert_edge_def demo_client_error demo_find_edges)

lemma demo_add_edge_edges:
  "fst (get_edges demo_env (snd (add_edge demo_env demo_db (ustr ''A'') (ustr ''B'')))) =
     Inr [(1, 2), (1, 2)]"
  by (simp add: demo_add_edge get_edges_eq
      select_edges_store_edges [OF demo_find_edges demo_encodable(2)])

section \<open>Name resolution for a new edge\<close>

text \<open>
  C1. When the nodes can be read and the stripped start name or the stripped end name is
  the name of no node, \<open>add_edge\<close> raises \<open>KeyError\<close> (the specification's NameNotFound),
  and the store is left as it was: the edges read afterwards are the edges read before.
\<close>

theorem add_edge_unknown_name:
  assumes "fst (get_nodes env db) = Inr nodes"
    and "strip start \<notin> snd ` set nodes \<or> strip end \<notin> snd ` set nodes"
  shows "add_edge env db start end = (Inl KeyError, db) \<and>
         fst (get_edges env (snd (add_edge env db start end))) = fst (get_edges env db)"
  using add_edge_KeyError [OF assms] by simp

theorem add_edge_unknown_name_witness:
  "fst (get_nodes demo_env demo_db) = Inr [(1, ustr ''A''), (2, ustr ''B'')] \<and>
   strip (ustr ''Z'') \<notin> snd ` set [(1::int, ustr ''A''), (2, ustr ''B'')] \<and>
   add_edge demo_env demo_db (ustr ''A'') (ustr ''Z'') = (Inl KeyError, demo_db) \<and>
   fst (get_edges demo_env (snd (add_edge demo_env demo_db (ustr ''A'') (ustr ''Z'')))) =
     Inr [(1, 2)]"
proof -
  have nodes: "fst (get_nodes demo_env demo_db) = Inr [(1, ustr ''A''), (2, ustr ''B'')]"
    by (simp add: demo_get_nodes)
  have missing: "strip (ustr ''Z'') \<notin> snd ` set [(1::int, ustr ''A''), (2, ustr ''B'')]"
    by (simp add: demo_strip demo_names_distinct)
  then have "strip (ustr ''A'') \<notin> snd ` set [(1::int, ustr ''A''), (2, ustr ''B'')] \<or>
      strip (ustr ''Z'') \<notin> snd ` set [(1::int, ustr ''A''), (2, ustr ''B'')]" ..
  from add_edge_unknown_name [OF nodes this] nodes missing show ?thesis
    by (simp add: demo_get_edges)
qed

text \<open>
  C3. In a node list with distinct ids (the primary key), a name that some node has
  resolves to the id of the last node of the list with that name, and no name resolves
  to the id of another node with that name.
\<close>

theorem resolve_last_wins:
  assumes "distinct (map fst nodes)" and "n \<in> snd ` set nodes"
  shows "getitem (swap_dict (dict nodes)) n = Inr (fst (last (filter (\<lambda>p. snd p = n) nodes))) \<and>
         (\<forall>i m. (i, n) \<in> set nodes \<and> i \<noteq> fst (last (filter (\<lambda>p. snd p = n) nodes)) \<longrightarrow>
                 getitem (swap_dict (dict nodes)) m \<noteq> Inr i)"
proof (intro conjI allI impI)
  show res: "getitem (swap_dict (dict nodes)) n = Inr (fst (last (filter (\<lambda>p. snd p = n) nodes)))"
    using assms by (rule getitem_present)
  fix i m
  assume other: "(i, n) \<in> set nodes \<and> i \<noteq> fst (last (filter (\<lambda>p. snd p = n) nodes))"
  show "getitem (swap_dict (dict nodes)) m \<noteq> Inr i"
  proof
    assume "getitem (swap_dict (dict nodes)) m = Inr i"
    then have "(i, m) \<in> set nodes" by (rule getitem_sound)
    with other assms(1) have "m = n" by (meson eq_key_imp_eq_value)
    with \<open>getitem (swap_dict (dict nodes)) m = Inr i\<close> res other show False by simp
  qed
qed

theorem resolve_last_wins_witness:
  "distinct (map fst [(1::int, ustr ''A''), (2, ustr ''B''), (3, ustr ''A'')]) \<and>
   ustr ''A'' \<in> snd ` set [(1::int, ustr ''A''), (2, ustr ''B''), (3, ustr ''A'')] \<and>
   getitem (swap_dict (dict [(1::int, ustr ''A''), (2, ustr ''B''), (3, ustr ''A'')])) (ustr ''A'')
     = Inr 3 \<and>
   getitem (swap_dict (dict [(1::int, ustr ''A''), (2, ustr ''B''), (3, ustr ''A'')])) (ustr ''A'')
     \<noteq> Inr 1"
proof -
  let ?nodes = "[(1::int, ustr ''A''), (2, ustr ''B''), (3, ustr ''A'')]"
  have d: "distinct (map fst ?nodes)" by simp
  have m: "ustr ''A'' \<in> snd ` set ?nodes" by simp
  have l: "fst (last (filter (\<lambda>p. snd p = ustr ''A'') ?nodes)) = 3"
    by (simp add: demo_names_distinct)
  from resolve_last_wins [OF d m]
  have "getitem (swap_dict (dict ?nodes)) (ustr ''A'') = Inr 3"
    and "(1, ustr ''A'') \<in> set ?nodes \<and> (1::int) \<noteq> 3 \<longrightarrow>
         getitem (swap_dict (dict ?nodes)) (ustr ''A'') \<noteq> Inr 1"
    unfolding l by blast+
  with d m show ?thesis by simp
qed

section \<open>Adding a node\<close>




section \<open>Reading\<close>

text \<open>
  C6. Taking the snapshot leaves the store as it was, so a second snapshot taken right
  after the first returns what the first returned: the same nodes and edges, or the same
  error.
\<close>

theorem snapshot_idempotent:
  "fst (snapshot env (snd (snapshot env db))) = fst (snapshot env db) \<and>
   snd (snapshot env db) = db"
  by (simp add: snapshot_eq)

theorem snapshot_idempotent_witness:
  "fst (snapshot demo_env (snd (snapshot demo_env demo_db))) =
     Inr ([(1, ustr ''A''), (2, ustr ''B'')], [(1, 2)]) \<and>
   fst (snapshot demo_env demo_db) = Inr ([(1, ustr ''A''), (2, ustr ''B'')], [(1, 2)]) \<and>
   snd (snapshot demo_env demo_db) = demo_db"
proof -
  have "fst (snapshot demo_env demo_db) = Inr ([(1, ustr ''A''), (2, ustr ''B'')], [(1, 2)])"
    by (simp add: snapshot_def demo_get_nodes demo_get_edges)
  with snapshot_idempotent [of demo_env demo_db] show ?thesis by simp
qed

text \<open>
  C10. \<open>get_nodes\<close> and \<open>get_edges\<close> return the store they were given, whatever they
  read and also when the read fails.
\<close>

theorem reads_are_pure:
  "snd (get_nodes env db) = db \<and> snd (get_edges env db) = db"
  by (simp add: get_nodes_def get_edges_def with_connection_def split: sum.splits)

theorem reads_are_pure_witness:
  "snd (get_nodes demo_env demo_db) = demo_db \<and> snd (get_edges demo_env demo_db) = demo_db"
  using reads_are_pure [of demo_env demo_db] .

section \<open>The schema name\<close>

text \<open>
  C7, as the specification states it, fails: only hyphens are removed from the user
  identifier, so with the user identifier \<^verbatim>\<open>a@b\<close> the user part of the schema name
  keeps the character \<^verbatim>\<open>@\<close>.
\<close>

theorem schema_name_keeps_non_alphanumeric:
  "get_schema_name [(''PGUSER'', ustr ''a@b'')] = ustr ''my_app_schema_a@b'' \<and>
   schema_user_part [(''PGUSER'', ustr ''a@b'')] = ustr ''a@b'' \<and>
   \<not> list_all alphanumeric (schema_user_part [(''PGUSER'', ustr ''a@b'')])"
  by (simp add: schema_user_part_def get_schema_name_eq getenv_def ustr_def alphanumeric_def)

text \<open>
  C7, amended. The schema name is the application identifier, the middle part
  \<^verbatim>\<open>_schema_\<close> and the user part; the user part is the user identifier without its
  hyphens, every other character kept in order; and two environments that agree on the
  two identifiers give the same schema name.
\<close>

theorem schema_name_strips_hyphens:
  "get_schema_name env =
     getenv env ''PGAPPNAME'' (ustr ''my_app'') @ ustr ''_schema_'' @ schema_user_part env \<and>
   schema_user_part env = filter (\<lambda>c. c \<noteq> of_char CHR ''-'') (getenv env ''PGUSER'' []) \<and>
   (getenv env ''PGAPPNAME'' (ustr ''my_app'') = getenv env' ''PGAPPNAME'' (ustr ''my_app'') \<and>
    getenv env ''PGUSER'' [] = getenv env' ''PGUSER'' [] \<longrightarrow>
    get_schema_name env = get_schema_name env')"
  by (simp add: schema_user_part_def get_schema_name_eq)

theorem schema_name_strips_hyphens_witness:
  "get_schema_name demo_env = ustr ''graph'' @ ustr ''_schema_'' @ schema_user_part demo_env \<and>
   schema_user_part demo_env = ustr ''u1'' \<and>
   get_schema_name demo_env = get_schema_name ((''HOME'', ustr ''/root'') # demo_env)"
proof -
  have e: "getenv ((''HOME'', ustr ''/root'') # demo_env) ''PGAPPNAME'' (ustr ''my_app'') =
      ustr ''graph''"
    "getenv ((''HOME'', ustr ''/root'') # demo_env) ''PGUSER'' [] = ustr ''u-1''"
    by (simp_all add: demo_env_def getenv_def)
  have f: "filter (\<lambda>c. c \<noteq> of_char CHR ''-'') (ustr ''u-1'') = ustr ''u1''"
    by (simp add: ustr_def)
  from schema_name_strips_hyphens [of demo_env "(''HOME'', ustr ''/root'') # demo_env"]
  show ?thesis unfolding demo_getenv e f by blast
qed

section \<open>Initialisation is idempotent\<close>

text \<open>
  C8, as the specification states it, fails: it promises the namespace and the tables
  after a run from any state, but with the application identifier \<^verbatim>\<open>pg_app\<close> the
  schema name begins with \<^verbatim>\<open>pg_\<close>, which the store refuses. \<open>init_database\<close> raises
  and the namespace is not there afterwards.
\<close>

theorem init_database_refuses_reserved_name:
  "init_database [(''PGAPPNAME'', ustr ''pg_app'')] [] = (Inl ReservedName, []) \<and>
   \<not> schema_ready (snd (init_database [(''PGAPPNAME'', ustr ''pg_app'')] []))
        (get_schema_name [(''PGAPPNAME'', ustr ''pg_app'')])"
proof -
  have n: "get_schema_name [(''PGAPPNAME'', ustr ''pg_app'')] = ustr ''pg_app_schema_''"
    by (simp add: get_schema_name_eq getenv_def) (simp add: ustr_def)
  have u: "utf8_encodable (ustr ''pg_app_schema_'')"
    by (simp add: utf8_encodable_def ustr_def)
  have r: "startswith (ustr ''pg_app_schema_'') (ustr ''pg_'')" by (simp add: ustr_def)
  have "init_database [(''PGAPPNAME'', ustr ''pg_app'')] [] = (Inl ReservedName, [])"
    by (simp add: init_database_def with_connection_def Let_def n create_schema_def
        client_error_def u r)
  then show ?thesis by (simp add: schema_ready_def)
qed

text \<open>
  C8, amended. A second run of \<open>init_database\<close> gives the store of the first, from any
  store; and on a store where the namespace and its two tables are there, a run leaves
  the store as it was. When the schema name is acceptable (it can be encoded and does not
  begin with \<^verbatim>\<open>pg_\<close>), the run succeeds and the namespace and the two tables are there
  afterwards. When it is not, the run raises and leaves the store as it was.
\<close>

theorem init_database_idempotent:
  "snd (init_database env (snd (init_database env db))) = snd (init_database env db) \<and>
   (schema_ready db (get_schema_name env) \<longrightarrow> snd (init_database env db) = db) \<and>
   (acceptable_schema_name (get_schema_name env) \<longrightarrow>
      fst (init_database env db) = Inr (PyBool True) \<and>
      schema_ready (snd (init_database env db)) (get_schema_name env)) \<and>
   (\<not> acceptable_schema_name (get_schema_name env) \<longrightarrow>
      snd (init_database env db) = db \<and> (\<exists>e. fst (init_database env db) = Inl e))"
  using init_database_twice [of env db] init_database_ready_store [of db env]
    init_database_establishes [of env db] init_database_refused [of env db]
  by blast

theorem init_database_idempotent_witness:
  "schema_ready demo_db (get_schema_name demo_env) \<and>
   acceptable_schema_name (get_schema_name demo_env) \<and>
   init_database demo_env demo_db = (Inr (PyBool True), demo_db) \<and>
   snd (init_database demo_env (snd (init_database demo_env demo_db))) = demo_db \<and>
   \<not> acceptable_schema_name (get_schema_name [(''PGAPPNAME'', ustr ''pg_app'')]) \<and>
   snd (init_database [(''PGAPPNAME'', ustr ''pg_app'')] demo_db) = demo_db"
proof -
  have r: "schema_ready demo_db (get_schema_name demo_env)"
    by (simp add: schema_ready_def demo_schema_name demo_db_def)
  have n: "get_schema_name [(''PGAPPNAME'', ustr ''pg_app'')] = ustr ''pg_app_schema_''"
    by (simp add: get_schema_name_eq getenv_def) (simp add: ustr_def)
  have p: "\<not> acceptable_schema_name (get_schema_name [(''PGAPPNAME'', ustr ''pg_app'')])"
    unfolding n by (simp add: acceptable_schema_name_def ustr_def)
  from init_database_idempotent [of demo_env demo_db] r demo_acceptable
  have "fst (init_database demo_env demo_db) = Inr (PyBool True)"
    and "snd (init_database demo_env demo_db) = demo_db"
    by blast+
  then have i: "init_database demo_env demo_db = (Inr (PyBool True), demo_db)"
    by (metis prod.collapse)
  from init_database_idempotent [of "[(''PGAPPNAME'', ustr ''pg_app'')]" demo_db] p
  have "snd (init_database [(''PGAPPNAME'', ustr ''pg_app'')] demo_db) = demo_db" by blast
  with r demo_acceptable p show ?thesis by (simp add: i)
qed

section \<open>The success messages\<close>

text \<open>
  C9. A call of \<open>add_node\<close> or \<open>add_edge\<close> that succeeds returns \<open>None\<close>. So a form
  handler that ends without an exception shows no message; and when the form was
  submitted with names that are not blank, the new node or the new edge is in the store
  all the same.
\<close>

theorem add_success_shows_no_message:
  "(\<forall>r db'. add_node env db node = (Inr r, db') \<longrightarrow> r = PyNone) \<and>
   (\<forall>r db'. add_edge env db start end = (Inr r, db') \<longrightarrow> r = PyNone) \<and>
   (\<forall>msgs db'. add_node_form env db submitted new_task = (Inr msgs, db') \<longrightarrow> msgs = []) \<and>
   (\<forall>msgs db'. add_edge_form env db submitted new_task new_task2 = (Inr msgs, db') \<longrightarrow> msgs = []) \<and>
   (\<forall>msgs db'. submitted \<and> strip new_task \<noteq> [] \<and>
        add_node_form env db submitted new_task = (Inr msgs, db') \<longrightarrow>
      (\<exists>nodes i. fst (get_nodes env db) = Inr nodes \<and>
                 fst (get_nodes env db') = Inr (nodes @ [(i, strip new_task)]))) \<and>
   (\<forall>msgs db'. submitted \<and> strip new_task \<noteq> [] \<and> strip new_task2 \<noteq> [] \<and>
        add_edge_form env db submitted new_task new_task2 = (Inr msgs, db') \<longrightarrow>
      (\<exists>edges a b. fst (get_edges env db) = Inr edges \<and>
                   fst (get_edges env db') = Inr (edges @ [(a, b)])))"
proof (intro conjI allI impI)
  fix r db' assume "add_node env db node = (Inr r, db')"
  then show "r = PyNone" by (rule add_node_result)
next
  fix r db' assume "add_edge env db start end = (Inr r, db')"
  then show "r = PyNone" by (rule add_edge_result)
next
  fix msgs db' assume "add_node_form env db submitted new_task = (Inr msgs, db')"
  then show "msgs = []"
    by (auto simp: add_node_form_def split: if_splits prod.splits sum.splits dest: add_node_result)
next
  fix msgs db' assume "add_edge_form env db submitted new_task new_task2 = (Inr msgs, db')"
  then show "msgs = []"
    by (auto simp: add_edge_form_def split: if_splits prod.splits sum.splits dest: add_edge_result)
next
  fix msgs db'
  assume "submitted \<and> strip new_task \<noteq> [] \<and>
    add_node_form env db submitted new_task = (Inr msgs, db')"
  then obtain r where "add_node env db (strip new_task) = (Inr r, db')"
    by (auto simp: add_node_form_def split: prod.splits sum.splits)
  from add_node_inserts [OF this]
  show "\<exists>nodes i. fst (get_nodes env db) = Inr nodes \<and>
          fst (get_nodes env db') = Inr (nodes @ [(i, strip new_task)])"
    by (simp add: strip_idem)
next
  fix msgs db'
  assume "submitted \<and> strip new_task \<noteq> [] \<and> strip new_task2 \<noteq> [] \<and>
    add_edge_form env db submitted new_task new_task2 = (Inr msgs, db')"
  then obtain r where "add_edge env db (strip new_task) (strip new_task2) = (Inr r, db')"
    by (auto simp: add_edge_form_def split: prod.splits sum.splits)
  from add_edge_inserts [OF this]
  show "\<exists>edges a b. fst (get_edges env db) = Inr edges \<and>
          fst (get_edges env db') = Inr (edges @ [(a, b)])" .
qed

theorem add_success_shows_no_message_witness:
  "fst (add_node demo_env demo_db (ustr ''A'')) = Inr PyNone \<and>
   fst (add_edge demo_env demo_db (ustr ''A'') (ustr ''B'')) = Inr PyNone \<and>
   fst (add_node_form demo_env demo_db True (ustr ''A'')) = Inr [] \<and>
   fst (add_edge_form demo_env demo_db True (ustr ''A'') (ustr ''B'')) = Inr [] \<and>
   fst (get_nodes demo_env (snd (add_node_form demo_env demo_db True (ustr ''A'')))) =
     Inr [(1, ustr ''A''), (2, ustr ''B''), (3, ustr ''A'')] \<and>
   fst (get_edges demo_env (snd (add_edge_form demo_env demo_db True (ustr ''A'') (ustr ''B'')))) =
     Inr [(1, 2), (1, 2)]"
proof -
  obtain dbn where n: "add_node demo_env demo_db (ustr ''A'') = (Inr PyNone, dbn)"
    by (simp add: demo_add_node demo_strip demo_dump)
  obtain dbe where e: "add_edge demo_env demo_db (ustr ''A'') (ustr ''B'') = (Inr PyNone, dbe)"
    by (simp add: demo_add_edge)
  have nf: "add_node_form demo_env demo_db True (ustr ''A'') =
      (Inr (if truthy PyNone then [NodeAdded] else []), dbn)"
    by (simp add: add_node_form_def demo_strip demo_names_distinct n)
  have ef: "add_edge_form demo_env demo_db True (ustr ''A'') (ustr ''B'') =
      (Inr (if truthy PyNone then [EdgeAdded] else []), dbe)"
    by (simp add: add_edge_form_def demo_strip demo_names_distinct e)
  note t = add_success_shows_no_message [of demo_env demo_db "ustr ''A''" "ustr ''A''"
      "ustr ''B''" True "ustr ''A''" "ustr ''B''"]
  from t nf have "(if truthy PyNone then [NodeAdded] else []) = []" by blast
  moreover from t ef have "(if truthy PyNone then [EdgeAdded] else []) = []" by blast
  moreover have "fst (get_nodes demo_env dbn) = Inr [(1, ustr ''A''), (2, ustr ''B''), (3, ustr ''A'')]"
    using demo_add_node_nodes [of "ustr ''A''"] by (simp add: n demo_strip demo_dump)
  moreover have "fst (get_edges demo_env dbe) = Inr [(1, 2), (1, 2)]"
    using demo_add_edge_edges by (simp add: e)
  ultimately show ?thesis by (simp add: n e nf ef)
qed

section \<open>Deleting\<close>

text \<open>
  C2. In the store of the scenario, \<open>delete_node\<close> for the name A fails on the
  condition of its second statement, which names a column the edges table does not have;
  the transaction is rolled back, and node A and the edge from it are still read
  afterwards.
\<close>

theorem delete_node_removes_nothing:
  "delete_node demo_env demo_db (ustr ''A'') = (Inl UndefinedColumn, demo_db) \<and>
   fst (get_nodes demo_env (snd (delete_node demo_env demo_db (ustr ''A'')))) =
     Inr [(1, ustr ''A''), (2, ustr ''B'')] \<and>
   fst (get_edges demo_env (snd (delete_node demo_env demo_db (ustr ''A'')))) = Inr [(1, 2)]"
proof -
  have "delete_node demo_env demo_db (ustr ''A'') = (Inl UndefinedColumn, demo_db)"
    by (simp add: delete_node_def with_connection_def Let_def delete_nodes_where_def
        demo_client_error demo_dump demo_find_nodes node_column_def delete_edges_where_def
        find_edges_store_nodes demo_find_edges edge_column_start)
  then show ?thesis by (simp add: demo_get_nodes demo_get_edges)
qed

text \<open>
  C5. In the store of the scenario, \<open>delete_edge\<close> for the endpoints of the one edge
  fails on its condition, which names a column the edges table does not have, and the
  edge is still read afterwards.
\<close>

theorem delete_edge_removes_nothing:
  "delete_edge demo_env demo_db 1 2 = (Inl UndefinedColumn, demo_db) \<and>
   fst (get_edges demo_env (snd (delete_edge demo_env demo_db 1 2))) = Inr [(1, 2)]"
proof -
  have "delete_edge demo_env demo_db 1 2 = (Inl UndefinedColumn, demo_db)"
    by (simp add: delete_edge_def with_connection_def Let_def delete_edges_where_def
        demo_client_error demo_find_edges edge_column_start)
  then show ?thesis by (simp add: demo_get_edges)
qed

end
